theory Spec2Isabelle
  imports Complex_Main "HOL-Library.Sublist"
begin

section \<open>Data model of app.js\<close>

text \<open>
  app.js is a single script: module-level variables, five click handlers, one interval
  callback and an initialisation routine. The model is a record holding the variables,
  the parts of the page the script writes, and the browser and TensorFlow.js resources
  the script creates (interval timers, model objects, pending promises). Each handler is
  a function from state to state. Handlers that await a promise which settles in a later
  task are cut at that await: the part before it is the handler, the part after it runs
  on the event that settles the promise.

  Pixel data and tensors are plain lists. Numbers that are IEEE doubles in the browser
  are reals here; no definition below rounds, and no theorem depends on arithmetic over
  them.
\<close>

type_synonym image = "nat list"
type_synonym tensor1d = "real list"
type_synonym tensor2d = "real list list"

datatype activation = Relu | Softmax

datatype layer =
    Dense nat activation "nat option"  \<comment> \<open>units, activation, inputShape\<close>
  | Dropout real                       \<comment> \<open>rate\<close>

datatype optimizer = Adam real

record compileArgs =
  optimizer :: optimizer
  lossName :: string
  metrics :: "string list"

text \<open>A \<open>tf.sequential()\<close> object: its layers in order, the arguments of \<open>compile\<close>
  once it has been compiled, and its trainable parameters.\<close>

record model =
  layers :: "layer list"
  compiled :: "compileArgs option"
  weights :: "real list"

record logs =
  loss :: real
  acc :: real

text \<open>The \<open>img\<close> elements that \<open>addThumbnail\<close> creates.\<close>

record imgEl =
  src :: string
  className :: string

text \<open>A pending \<open>classifierModel.fit(xs, ys, {epochs, shuffle, callbacks})\<close> promise:
  the model object it trains (an index into the store of model objects), its arguments,
  and the number of epochs finished so far.\<close>

record job =
  jobModel :: nat
  jobXs :: tensor2d
  jobYs :: tensor2d
  jobEpochs :: nat
  jobShuffle :: bool
  jobDone :: nat

datatype initPhase = AwaitWebcam | AwaitMobileNet | InitDone

text \<open>
  What the script takes from outside and does not define: the canvas encoder, the
  MobileNet forward pass, the initial parameters of a new model (drawn at random by the
  library), inference of a model, and \<open>Number.prototype.toFixed\<close>.
\<close>

record rt =
  toDataURL :: "image \<Rightarrow> string"
  infer :: "image \<Rightarrow> tensor1d"
  initWeights :: "nat \<Rightarrow> nat \<Rightarrow> real list"
  predict :: "model \<Rightarrow> tensor2d \<Rightarrow> real \<times> real"
  toFixed :: "real \<Rightarrow> nat \<Rightarrow> string"

record state =
  \<comment> \<open>the page\<close>
  previewCanvas :: "image option"
  galleryA :: "imgEl list"
  galleryB :: "imgEl list"
  thumbA :: "string option"
  thumbB :: "string option"
  trainBtn_disabled :: bool
  startPredictBtn_disabled :: bool
  stopPredictBtn_disabled :: bool
  statusLog :: "string list"
  barA :: "string option"
  barB :: "string option"
  pctA :: "string option"
  pctB :: "string option"
  \<comment> \<open>the script's variables\<close>
  mobilenetModel :: bool
  classifierModel :: "nat option"
  embeddingsA :: "tensor1d list"
  embeddingsB :: "tensor1d list"
  predictInterval :: "nat option"
  \<comment> \<open>browser and library resources\<close>
  videoFrame :: image
  models :: "model list"
  timers :: "(nat \<times> nat) list"
  timerSeq :: nat
  alerts :: "string list"
  inflight :: "(real \<times> real) list"
  jobs :: "job list"
  phase :: initPhase
  cyclesBegun :: nat

text \<open>
  \<^item> \<open>statusLog\<close> holds every value assigned to \<open>statusEl.innerText\<close>, oldest first;
    the text on screen is the last one.
  \<^item> \<open>mobilenetModel\<close> is \<open>False\<close> while the variable is still \<open>undefined\<close>.
  \<^item> \<open>classifierModel\<close> is \<open>None\<close> while the variable is \<open>undefined\<close>, otherwise the
    index in \<open>models\<close> of the object it refers to. Model objects are mutated in place by
    \<open>fit\<close>, so the store keeps what every reference to one object sees.
  \<^item> \<open>timers\<close> are the active intervals (handle, delay in ms); \<open>timerSeq\<close> counts the
    handles given out, so that each new handle is fresh and positive.
  \<^item> \<open>alerts\<close> are the messages shown by \<open>alert\<close>, oldest first.
  \<^item> \<open>inflight\<close> are the prediction cycles suspended at \<open>await prediction.data()\<close>.
  \<^item> \<open>cyclesBegun\<close> counts the runs of the interval callback; the script does not hold
    this number, it is here to state how often a cycle began.
\<close>

section \<open>Helpers\<close>

definition setStatus :: "string \<Rightarrow> state \<Rightarrow> state" where
  "setStatus msg s = s\<lparr>statusLog := statusLog s @ [msg]\<rparr>"

definition alert :: "string \<Rightarrow> state \<Rightarrow> state" where
  "alert msg s = s\<lparr>alerts := alerts s @ [msg]\<rparr>"

text \<open>Decimal rendering of a length inside a template literal.\<close>

fun showNat :: "nat \<Rightarrow> string" where
  "showNat n =
     (if n < 10 then [''0123456789'' ! n]
      else showNat (n div 10) @ [''0123456789'' ! (n mod 10)])"

declare showNat.simps [simp del]

text \<open>The two characters of the status texts outside ASCII, as their UTF-8 bytes.\<close>

definition emDash :: string where
  "emDash = [CHR 0xE2, CHR 0x80, CHR 0x94]"

definition checkMark :: string where
  "checkMark = [CHR 0xE2, CHR 0x9C, CHR 0x93]"

text \<open>JavaScript truthiness of \<open>predictInterval\<close>: \<open>null\<close> and \<open>0\<close> are falsy.\<close>

definition truthy :: "nat option \<Rightarrow> bool" where
  "truthy p = (case p of None \<Rightarrow> False | Some h \<Rightarrow> h \<noteq> 0)"

text \<open>\<open>setInterval(callback, delay)\<close>: the script has one interval callback, so a timer
  is its handle and delay. \<open>clearInterval(h)\<close> removes the timer with that handle.\<close>

definition setInterval :: "nat \<Rightarrow> state \<Rightarrow> nat \<times> state" where
  "setInterval delay s =
     (let h = Suc (timerSeq s)
      in (h, s\<lparr>timers := timers s @ [(h, delay)], timerSeq := h\<rparr>))"

definition clearInterval :: "nat \<Rightarrow> state \<Rightarrow> state" where
  "clearInterval h s = s\<lparr>timers := filter (\<lambda>t. fst t \<noteq> h) (timers s)\<rparr>"

text \<open>Removal of the element at one position, for promises that have settled.\<close>

definition dropAt :: "nat \<Rightarrow> 'a list \<Rightarrow> 'a list" where
  "dropAt i xs = take i xs @ drop (Suc i) xs"

section \<open>Capture\<close>

definition captureFrameToCanvas :: "state \<Rightarrow> image" where
  "captureFrameToCanvas s = videoFrame s"

datatype cls = A | B

definition addThumbnail :: "string \<Rightarrow> cls \<Rightarrow> state \<Rightarrow> state" where
  "addThumbnail imgUrl c s =
     (let img = \<lparr>src = imgUrl, className = ''thumb-img''\<rparr>
      in case c of
           A \<Rightarrow> s\<lparr>galleryA := galleryA s @ [img], thumbA := Some imgUrl\<rparr>
         | B \<Rightarrow> s\<lparr>galleryB := galleryB s @ [img], thumbB := Some imgUrl\<rparr>)"

text \<open>\<open>embedFromCanvas\<close>: \<open>None\<close> is the TypeError of \<open>mobilenetModel.infer\<close> while
  \<open>mobilenetModel\<close> is undefined, which rejects the promise the function returns.\<close>

definition embedFromCanvas :: "rt \<Rightarrow> state \<Rightarrow> image \<Rightarrow> tensor1d option" where
  "embedFromCanvas r s canvas = (if mobilenetModel s then Some (infer r canvas) else None)"

text \<open>The two capture handlers. \<open>embedFromCanvas\<close> has no await inside, so its promise is
  settled when it returns and the handler resumes before any other event is handled. When
  the promise is rejected the handler ends at the await: the thumbnail has been added,
  nothing is pushed and the status text is not written.\<close>

definition captureA_click :: "rt \<Rightarrow> state \<Rightarrow> state" where
  "captureA_click r s =
     (let canvas = captureFrameToCanvas s;
          s1 = addThumbnail (toDataURL r canvas) A s
      in case embedFromCanvas r s1 canvas of
           None \<Rightarrow> s1
         | Some e \<Rightarrow>
             (let s2 = s1\<lparr>embeddingsA := embeddingsA s1 @ [e]\<rparr>
              in setStatus (''Class A samples: '' @ showNat (length (embeddingsA s2))) s2))"

definition captureB_click :: "rt \<Rightarrow> state \<Rightarrow> state" where
  "captureB_click r s =
     (let canvas = captureFrameToCanvas s;
          s1 = addThumbnail (toDataURL r canvas) B s
      in case embedFromCanvas r s1 canvas of
           None \<Rightarrow> s1
         | Some e \<Rightarrow>
             (let s2 = s1\<lparr>embeddingsB := embeddingsB s1 @ [e]\<rparr>
              in setStatus (''Class B samples: '' @ showNat (length (embeddingsB s2))) s2))"

section \<open>Training\<close>

text \<open>\<open>model.add\<close> and \<open>model.compile\<close> of a sequential model.\<close>

definition sequential :: "model" where
  "sequential = \<lparr>layers = [], compiled = None, weights = []\<rparr>"

definition add_layer :: "layer \<Rightarrow> model \<Rightarrow> model" where
  "add_layer l m = m\<lparr>layers := layers m @ [l]\<rparr>"

definition compile :: "compileArgs \<Rightarrow> model \<Rightarrow> model" where
  "compile a m = m\<lparr>compiled := Some a\<rparr>"

text \<open>\<open>buildModel(inputSize)\<close>. The second argument numbers the model objects built so
  far; the library draws the initial parameters at random, and \<open>initWeights\<close> stands for
  that draw.\<close>

definition buildModel :: "rt \<Rightarrow> nat \<Rightarrow> nat \<Rightarrow> model" where
  "buildModel r inputSize k =
     (let m0 = sequential;
          m1 = add_layer (Dense 128 Relu (Some inputSize)) m0;
          m2 = add_layer (Dropout 0.25) m1;
          m3 = add_layer (Dense 2 Softmax None) m2;
          m4 = compile \<lparr>optimizer = Adam 0.0005,
                        lossName = ''categoricalCrossentropy'',
                        metrics = [''accuracy'']\<rparr> m3
      in m4\<lparr>weights := initWeights r inputSize k\<rparr>)"

text \<open>\<open>tf.stack\<close> of rank-1 tensors is the rank-2 tensor of its rows, and \<open>shape[1]\<close> of it
  is the length of a row. \<open>tf.stack\<close> rejects rows of different shapes; every row here is
  an output of the one extractor, so that failure is not modelled.\<close>

definition stack :: "tensor1d list \<Rightarrow> tensor2d" where
  "stack ts = ts"

definition shape1 :: "tensor2d \<Rightarrow> nat" where
  "shape1 xs = (case xs of [] \<Rightarrow> 0 | row # _ \<Rightarrow> length row)"

text \<open>\<open>tf.oneHot(indices, depth)\<close>: row \<open>i\<close> has a one at position \<open>indices[i]\<close>.\<close>

definition oneHot :: "nat list \<Rightarrow> nat \<Rightarrow> tensor2d" where
  "oneHot indices depth = map (\<lambda>i. map (\<lambda>j. if j = i then 1 else 0) [0..<depth]) indices"

text \<open>The click handler of \<open>trainBtn\<close>, up to \<open>await classifierModel.fit(...)\<close>.\<close>

definition train_click :: "rt \<Rightarrow> state \<Rightarrow> state" where
  "train_click r s =
     (if length (embeddingsA s) + length (embeddingsB s) < 10
      then alert ''At least 10 total images needed (example: 5A + 5B)'' s
      else
        (let s1 = s\<lparr>trainBtn_disabled := True\<rparr>;
             s2 = setStatus ''Preparing training data...'' s1;
             xs = stack (embeddingsA s2 @ embeddingsB s2);
             labels = replicate (length (embeddingsA s2)) 0 @
                      replicate (length (embeddingsB s2)) 1;
             ys = oneHot labels 2;
             ref = length (models s2);
             s3 = s2\<lparr>models := models s2 @ [buildModel r (shape1 xs) ref],
                     classifierModel := Some ref\<rparr>;
             s4 = setStatus ''Training...'' s3
         in s4\<lparr>jobs := jobs s4 @
                 [\<lparr>jobModel = ref, jobXs = xs, jobYs = ys, jobEpochs = 25,
                   jobShuffle = True, jobDone = 0\<rparr>]\<rparr>))"

text \<open>The \<open>onEpochEnd\<close> callback passed to \<open>fit\<close>, and the template literal it
  writes.\<close>

definition epochStatus :: "rt \<Rightarrow> nat \<Rightarrow> logs \<Rightarrow> string" where
  "epochStatus r epoch lg =
     ''Epoch '' @ showNat (epoch + 1) @ '' '' @ emDash @ '' Loss: '' @
     toFixed r (loss lg) 3 @ '' Acc: '' @ toFixed r (acc lg) 3"

definition onEpochEnd :: "rt \<Rightarrow> nat \<Rightarrow> logs \<Rightarrow> state \<Rightarrow> state" where
  "onEpochEnd r epoch lg s = setStatus (epochStatus r epoch lg) s"

text \<open>The rest of the handler, after the await.\<close>

definition train_resume :: "state \<Rightarrow> state" where
  "train_resume s =
     (let s1 = setStatus ''Training Done! Start Prediction.'' s
      in s1\<lparr>startPredictBtn_disabled := False, trainBtn_disabled := False\<rparr>)"

text \<open>
  Modelled from the spec: \<open>LayersModel.fit\<close> of TensorFlow.js, which the script calls
  and the repository does not contain. The spec's words: a fixed epoch count, control
  yielded between epochs, one progress notification per epoch (epoch index, loss,
  accuracy), no early stopping, and no usable result when training is interrupted. So a
  pending fit advances one epoch at a time while fewer than \<open>jobEpochs\<close> are done: the
  epoch replaces the parameters of the model object (the new parameters and the epoch's
  logs are what the library computed) and calls \<open>onEpochEnd\<close> with the epoch's index
  and logs. Once all epochs are done a further epoch event changes nothing.
\<close>

definition fit_epoch :: "rt \<Rightarrow> nat \<Rightarrow> real list \<Rightarrow> logs \<Rightarrow> state \<Rightarrow> state" where
  "fit_epoch r j w lg s =
     (if j < length (jobs s) \<and> jobDone (jobs s ! j) < jobEpochs (jobs s ! j)
      then
        (let jb = jobs s ! j;
             m = jobModel jb;
             s1 = (if m < length (models s)
                   then s\<lparr>models := (models s)[m := (models s ! m)\<lparr>weights := w\<rparr>]\<rparr>
                   else s);
             s2 = onEpochEnd r (jobDone jb) lg s1
         in s2\<lparr>jobs := (jobs s2)[j := jb\<lparr>jobDone := Suc (jobDone jb)\<rparr>]\<rparr>)
      else s)"

text \<open>Modelled from the spec: the promise of \<open>LayersModel.fit\<close> resolves only when all
  epochs are done; the handler then resumes, and \<open>xs.dispose()\<close> and \<open>ys.dispose()\<close>
  free the tensors of the fit.\<close>

definition fit_resolve :: "nat \<Rightarrow> state \<Rightarrow> state" where
  "fit_resolve j s =
     (if j < length (jobs s) \<and> jobDone (jobs s ! j) = jobEpochs (jobs s ! j)
      then train_resume (s\<lparr>jobs := dropAt j (jobs s)\<rparr>)
      else s)"

text \<open>Modelled from the spec: a failure inside \<open>LayersModel.fit\<close> rejects the promise
  at any point; the handler never resumes.\<close>

definition fit_reject :: "nat \<Rightarrow> state \<Rightarrow> state" where
  "fit_reject j s = (if j < length (jobs s) then s\<lparr>jobs := dropAt j (jobs s)\<rparr> else s)"

section \<open>Live prediction\<close>

definition updateBars :: "rt \<Rightarrow> real \<Rightarrow> real \<Rightarrow> state \<Rightarrow> state" where
  "updateBars r pA pB s =
     (let aPct = toFixed r (pA * 100) 2;
          bPct = toFixed r (pB * 100) 2
      in s\<lparr>barA := Some (aPct @ ''%''), barB := Some (bPct @ ''%''),
           pctA := Some (aPct @ ''%''), pctB := Some (bPct @ ''%'')\<rparr>)"

text \<open>The interval callback, up to \<open>await prediction.data()\<close>. It ends early, with its
  promise rejected, when \<open>embedFromCanvas\<close> fails or when \<open>classifierModel\<close> is undefined.\<close>

definition predict_cycle :: "rt \<Rightarrow> state \<Rightarrow> state" where
  "predict_cycle r s =
     (let s0 = s\<lparr>cyclesBegun := Suc (cyclesBegun s)\<rparr>;
          canvas = captureFrameToCanvas s0;
          s1 = s0\<lparr>previewCanvas := Some canvas\<rparr>
      in case embedFromCanvas r s1 canvas of
           None \<Rightarrow> s1
         | Some emb \<Rightarrow>
             (case classifierModel s1 of
                None \<Rightarrow> s1
              | Some ref \<Rightarrow>
                  if ref < length (models s1)
                  then s1\<lparr>inflight := inflight s1 @ [predict r (models s1 ! ref) [emb]]\<rparr>
                  else s1))"

text \<open>The rest of the callback, for the suspended cycle at position \<open>i\<close>.\<close>

definition predict_resume :: "rt \<Rightarrow> nat \<Rightarrow> state \<Rightarrow> state" where
  "predict_resume r i s =
     (if i < length (inflight s)
      then (case inflight s ! i of
              (pA, pB) \<Rightarrow> updateBars r pA pB (s\<lparr>inflight := dropAt i (inflight s)\<rparr>))
      else s)"

text \<open>A timer fires only while it is active.\<close>

definition timer_fire :: "rt \<Rightarrow> nat \<Rightarrow> state \<Rightarrow> state" where
  "timer_fire r h s = (if h \<in> fst ` set (timers s) then predict_cycle r s else s)"

definition startPredict_click :: "state \<Rightarrow> state" where
  "startPredict_click s =
     (let s1 = s\<lparr>startPredictBtn_disabled := True\<rparr>;
          s2 = s1\<lparr>stopPredictBtn_disabled := False\<rparr>;
          s3 = setStatus ''Predicting Live...'' s2
      in case setInterval 300 s3 of (h, s4) \<Rightarrow> s4\<lparr>predictInterval := Some h\<rparr>)"

definition stopPredict_click :: "state \<Rightarrow> state" where
  "stopPredict_click s =
     (let s1 = (if truthy (predictInterval s)
                then clearInterval (the (predictInterval s)) s else s);
          s2 = s1\<lparr>predictInterval := None\<rparr>;
          s3 = s2\<lparr>startPredictBtn_disabled := False\<rparr>;
          s4 = s3\<lparr>stopPredictBtn_disabled := True\<rparr>
      in setStatus ''Stopped.'' s4)"

section \<open>Initialisation\<close>

text \<open>\<open>init\<close> awaits the webcam and then the MobileNet download. The state of the page
  before the script runs comes from the HTML file, which is not part of the sources: the
  three \<open>disabled\<close> attributes are parameters.\<close>

definition init :: "bool \<Rightarrow> bool \<Rightarrow> bool \<Rightarrow> state" where
  "init trainOff startOff stopOff =
     \<lparr>previewCanvas = None, galleryA = [], galleryB = [], thumbA = None, thumbB = None,
      trainBtn_disabled = trainOff, startPredictBtn_disabled = startOff,
      stopPredictBtn_disabled = stopOff, statusLog = [],
      barA = None, barB = None, pctA = None, pctB = None,
      mobilenetModel = False, classifierModel = None,
      embeddingsA = [], embeddingsB = [], predictInterval = None,
      videoFrame = [], models = [], timers = [], timerSeq = 0, alerts = [],
      inflight = [], jobs = [], phase = AwaitWebcam, cyclesBegun = 0\<rparr>"

definition webcam_ready :: "state \<Rightarrow> state" where
  "webcam_ready s =
     (if phase s = AwaitWebcam
      then setStatus ''Loading MobileNet...'' (s\<lparr>phase := AwaitMobileNet\<rparr>)
      else s)"

definition mobilenet_ready :: "state \<Rightarrow> state" where
  "mobilenet_ready s =
     (if phase s = AwaitMobileNet
      then (let s1 = s\<lparr>mobilenetModel := True, phase := InitDone\<rparr>;
                s2 = setStatus (''MobileNet Loaded '' @ checkMark) s1
            in setStatus ''Ready! Capture images now.'' s2)
      else s)"

section \<open>Events\<close>

datatype button = CaptureA | CaptureB | TrainBtn | StartPredictBtn | StopPredictBtn

datatype event =
    Click button
  | VideoFrame image
  | WebcamReady
  | MobileNetReady
  | TimerFire nat
  | DataReady nat
  | FitEpoch nat "real list" logs
  | FitResolve nat
  | FitReject nat

text \<open>A disabled button dispatches no click event. The script never sets \<open>disabled\<close> on
  the two capture buttons.\<close>

definition disabled :: "state \<Rightarrow> button \<Rightarrow> bool" where
  "disabled s b =
     (case b of
        CaptureA \<Rightarrow> False
      | CaptureB \<Rightarrow> False
      | TrainBtn \<Rightarrow> trainBtn_disabled s
      | StartPredictBtn \<Rightarrow> startPredictBtn_disabled s
      | StopPredictBtn \<Rightarrow> stopPredictBtn_disabled s)"

definition handler :: "rt \<Rightarrow> button \<Rightarrow> state \<Rightarrow> state" where
  "handler r b s =
     (case b of
        CaptureA \<Rightarrow> captureA_click r s
      | CaptureB \<Rightarrow> captureB_click r s
      | TrainBtn \<Rightarrow> train_click r s
      | StartPredictBtn \<Rightarrow> startPredict_click s
      | StopPredictBtn \<Rightarrow> stopPredict_click s)"

definition step :: "rt \<Rightarrow> state \<Rightarrow> event \<Rightarrow> state" where
  "step r s e =
     (case e of
        Click b \<Rightarrow> if disabled s b then s else handler r b s
      | VideoFrame img \<Rightarrow> s\<lparr>videoFrame := img\<rparr>
      | WebcamReady \<Rightarrow> webcam_ready s
      | MobileNetReady \<Rightarrow> mobilenet_ready s
      | TimerFire h \<Rightarrow> timer_fire r h s
      | DataReady i \<Rightarrow> predict_resume r i s
      | FitEpoch j w lg \<Rightarrow> fit_epoch r j w lg s
      | FitResolve j \<Rightarrow> fit_resolve j s
      | FitReject j \<Rightarrow> fit_reject j s)"

definition run :: "rt \<Rightarrow> state \<Rightarrow> event list \<Rightarrow> state" where
  "run r s es = foldl (step r) s es"

text \<open>What the spec calls \<open>counts()\<close> and the state of the live predictor.\<close>

definition counts :: "state \<Rightarrow> nat \<times> nat" where
  "counts s = (length (embeddingsA s), length (embeddingsB s))"

datatype predictor = Idle | Running

definition predictor :: "state \<Rightarrow> predictor" where
  "predictor s = (if truthy (predictInterval s) then Running else Idle)"

section \<open>Event sequences and the shape of a training run\<close>

definition capture_button :: "cls \<Rightarrow> button" where
  "capture_button c = (case c of A \<Rightarrow> CaptureA | B \<Rightarrow> CaptureB)"

definition capture_events :: "cls list \<Rightarrow> event list" where
  "capture_events cs = map (\<lambda>c. Click (capture_button c)) cs"

text \<open>The epoch events of the fit at position \<open>j\<close>, one for each result (new parameters,
  logs) the library computes, and a whole training from the click to the resolved
  promise.\<close>

definition fit_events :: "nat \<Rightarrow> (real list \<times> logs) list \<Rightarrow> event list" where
  "fit_events j rs = map (\<lambda>(w, lg). FitEpoch j w lg) rs"

definition train_events :: "nat \<Rightarrow> (real list \<times> logs) list \<Rightarrow> event list" where
  "train_events j rs = [Click TrainBtn] @ fit_events j rs @ [FitResolve j]"

text \<open>The train handler followed by the epochs of its own fit and the attempt to resolve
  it. The new fit is the last pending one, at position \<open>length (jobs s)\<close>.\<close>

definition training_run :: "rt \<Rightarrow> state \<Rightarrow> (real list \<times> logs) list \<Rightarrow> state" where
  "training_run r s rs =
     run r (train_click r s)
       (fit_events (length (jobs s)) rs @ [FitResolve (length (jobs s))])"

text \<open>The status texts of the epochs \<open>0, 1, ...\<close> with results \<open>ds\<close>.\<close>

definition epochTexts :: "rt \<Rightarrow> (real list \<times> logs) list \<Rightarrow> string list" where
  "epochTexts r ds = map (\<lambda>(k, w, lg). epochStatus r k lg) (zip [0..<length ds] ds)"

text \<open>The model object and the fit that the train handler creates in state \<open>s\<close>, the
  state while that fit has finished the epochs with results \<open>ds\<close>, and the state after
  the handler has resumed.\<close>

definition new_model :: "rt \<Rightarrow> state \<Rightarrow> model" where
  "new_model r s =
     buildModel r (shape1 (stack (embeddingsA s @ embeddingsB s))) (length (models s))"

definition new_job :: "state \<Rightarrow> job" where
  "new_job s =
     \<lparr>jobModel = length (models s),
      jobXs = stack (embeddingsA s @ embeddingsB s),
      jobYs = oneHot (replicate (length (embeddingsA s)) 0 @
                      replicate (length (embeddingsB s)) 1) 2,
      jobEpochs = 25, jobShuffle = True, jobDone = 0\<rparr>"

definition fitting :: "rt \<Rightarrow> state \<Rightarrow> (real list \<times> logs) list \<Rightarrow> state" where
  "fitting r s ds =
     s\<lparr>trainBtn_disabled := True,
       statusLog := statusLog s @ [''Preparing training data...'', ''Training...''] @
                    epochTexts r ds,
       models := models s @
                 [if ds = [] then new_model r s
                  else (new_model r s)\<lparr>weights := fst (last ds)\<rparr>],
       classifierModel := Some (length (models s)),
       jobs := jobs s @ [(new_job s)\<lparr>jobDone := length ds\<rparr>]\<rparr>"

definition fitted :: "rt \<Rightarrow> state \<Rightarrow> (real list \<times> logs) list \<Rightarrow> state" where
  "fitted r s ds =
     s\<lparr>trainBtn_disabled := False,
       startPredictBtn_disabled := False,
       statusLog := statusLog s @ [''Preparing training data...'', ''Training...''] @
                    epochTexts r ds @ [''Training Done! Start Prediction.''],
       models := models s @
                 [if ds = [] then new_model r s
                  else (new_model r s)\<lparr>weights := fst (last ds)\<rparr>],
       classifierModel := Some (length (models s))\<rparr>"

text \<open>Every active timer has a nonzero handle, and that handle is the one held in
  \<open>predictInterval\<close>.\<close>

definition timers_tracked :: "state \<Rightarrow> bool" where
  "timers_tracked s =
     (\<forall>t \<in> set (timers s). fst t \<noteq> 0 \<and> predictInterval s = Some (fst t))"

text \<open>While no classifier exists, the start and stop buttons are disabled and no fit is
  pending.\<close>

definition start_guarded :: "state \<Rightarrow> bool" where
  "start_guarded s =
     (classifierModel s = None \<longrightarrow>
        startPredictBtn_disabled s \<and> stopPredictBtn_disabled s \<and> jobs s = [])"

section \<open>A sample runtime and sample sessions\<close>

text \<open>A concrete runtime on which the handlers can be evaluated: the encoder returns a
  fixed URL, the extractor returns the pixels as reals, a new model has no parameters and
  inference returns one fixed pair.\<close>

definition demo_rt :: rt where
  "demo_rt = \<lparr>toDataURL = (\<lambda>img. ''data:,''), infer = (\<lambda>img. map real img),
              initWeights = (\<lambda>n k. []), predict = (\<lambda>m x. (1/4, 3/4)),
              toFixed = (\<lambda>x d. ''0'')\<rparr>"

text \<open>A page whose start and stop buttons are disabled in the HTML, after the webcam and
  MobileNet are ready; then with three samples of class A and two of class B; then with
  five of each.\<close>

definition loaded :: state where
  "loaded = run demo_rt (init False True True)
     [WebcamReady, VideoFrame [3, 1, 2], MobileNetReady]"

definition few_samples :: state where
  "few_samples = run demo_rt loaded (capture_events [A, A, A, B, B])"

definition ten_samples :: state where
  "ten_samples = run demo_rt loaded (capture_events [A, A, A, A, A, B, B, B, B, B])"

text \<open>Twenty-five epoch results, a completed training on the ten samples, and the session
  that trains, starts the live prediction and trains again while it runs.\<close>

definition demo_results :: "(real list \<times> logs) list" where
  "demo_results = replicate 25 ([], \<lparr>loss = 0, acc = 1\<rparr>)"

definition trained_once :: state where
  "trained_once = run demo_rt ten_samples (train_events 0 demo_results)"

definition retrained :: state where
  "retrained = run demo_rt ten_samples
     (train_events 0 demo_results @ [Click StartPredictBtn] @ train_events 0 demo_results)"

text \<open>The value of a decimal numeral, to read back what \<open>showNat\<close> writes.\<close>

definition digitVal :: "char \<Rightarrow> nat" where
  "digitVal c = of_char c - 48"

definition readNat :: "string \<Rightarrow> nat" where
  "readNat cs = foldl (\<lambda>a c. 10 * a + digitVal c) 0 cs"

text \<open>A runtime whose \<open>toFixed\<close> writes the integer part and then zeros for the digits
  asked for, and twenty-five epoch results that differ from epoch to epoch.\<close>

definition text_rt :: rt where
  "text_rt = demo_rt\<lparr>toFixed := (\<lambda>x d. showNat (nat \<lfloor>x\<rfloor>) @ ''.'' @ replicate d (CHR ''0''))\<rparr>"

definition graded_results :: "(real list \<times> logs) list" where
  "graded_results =
     map (\<lambda>k. ([real k], \<lparr>loss = real (24 - k), acc = (if k < 12 then 0 else 1)\<rparr>)) [0..<25]"

section \<open>Unfolding and evaluation\<close>

lemmas ui_defs = setStatus_def alert_def addThumbnail_def embedFromCanvas_def
  captureFrameToCanvas_def setInterval_def clearInterval_def updateBars_def onEpochEnd_def

lemmas handler_defs = captureA_click_def captureB_click_def train_click_def
  startPredict_click_def stopPredict_click_def

lemmas async_defs = fit_epoch_def fit_resolve_def fit_reject_def train_resume_def
  predict_cycle_def predict_resume_def timer_fire_def webcam_ready_def mobilenet_ready_def

lemmas eval_defs = run_def step_def handler_def disabled_def init_def demo_rt_def
  capture_events_def capture_button_def webcam_ready_def mobilenet_ready_def
  captureA_click_def captureB_click_def ui_defs

lemma run_append: "run r s (es @ es') = run r (run r s es) es'"
  by (simp add: run_def)

lemma loaded_fields:
  "mobilenetModel loaded" "counts loaded = (0, 0)" "timers loaded = []"
  "predictInterval loaded = None" "classifierModel loaded = None"
  by (simp_all add: loaded_def eval_defs counts_def)

lemma few_samples_fields:
  "counts few_samples = (3, 2)" "classifierModel few_samples = None"
  by (simp_all add: few_samples_def loaded_def eval_defs counts_def)

lemma ten_samples_fields:
  "embeddingsA ten_samples = replicate 5 [3, 1, 2]"
  "embeddingsB ten_samples = replicate 5 [3, 1, 2]"
  "models ten_samples = []" "jobs ten_samples = []" "timers ten_samples = []"
  "timerSeq ten_samples = 0" "predictInterval ten_samples = None"
  "\<not> trainBtn_disabled ten_samples" "startPredictBtn_disabled ten_samples"
  "classifierModel ten_samples = None" "mobilenetModel ten_samples"
  "inflight ten_samples = []" "cyclesBegun ten_samples = 0"
  by (simp_all add: ten_samples_def loaded_def eval_defs eval_nat_numeral)

lemma length_demo_results: "length demo_results = 25"
  by (simp add: demo_results_def)

section \<open>The sample store\<close>

text \<open>
  Claim C1. In every state whose two buckets hold fewer than ten samples together, the
  train handler shows the alert and returns: the state after it is the state before it
  with that one alert added. So no fit is pending, no status text has been written, and
  the classifier reference, the model objects and both buckets are as they were.
\<close>

theorem train_insufficient:
  assumes "fst (counts s) + snd (counts s) < 10"
  shows "train_click r s =
           s\<lparr>alerts := alerts s @ [''At least 10 total images needed (example: 5A + 5B)'']\<rparr>
       \<and> jobs (train_click r s) = jobs s
       \<and> statusLog (train_click r s) = statusLog s
       \<and> classifierModel (train_click r s) = classifierModel s
       \<and> models (train_click r s) = models s
       \<and> embeddingsA (train_click r s) = embeddingsA s
       \<and> embeddingsB (train_click r s) = embeddingsB s"
  using assms by (simp add: train_click_def counts_def alert_def)

theorem train_insufficient_witness:
  "fst (counts few_samples) + snd (counts few_samples) < 10
   \<and> train_click demo_rt few_samples =
       few_samples\<lparr>alerts := alerts few_samples @
         [''At least 10 total images needed (example: 5A + 5B)'']\<rparr>
   \<and> statusLog (train_click demo_rt few_samples) = statusLog few_samples
   \<and> classifierModel (train_click demo_rt few_samples) = None"
proof -
  have h: "fst (counts few_samples) + snd (counts few_samples) < 10"
    by (simp add: few_samples_fields)
  show ?thesis
    using h few_samples_fields(2) train_insufficient [OF h, of demo_rt] by simp
qed

lemma capture_step:
  assumes "mobilenetModel s"
  shows "mobilenetModel (step r s (Click (capture_button c)))
       \<and> counts (step r s (Click (capture_button c))) =
           (fst (counts s) + (if c = A then 1 else 0),
            snd (counts s) + (if c = B then 1 else 0))"
  using assms
  by (cases c) (simp_all add: capture_button_def step_def handler_def disabled_def
      captureA_click_def captureB_click_def ui_defs counts_def Let_def)

text \<open>
  Claim C4, amended. Once the embedding extractor is loaded, a sequence of capture clicks
  in any interleaving adds to each bucket exactly as many samples as the sequence has
  clicks of that class; from the empty store the counts are those numbers.
\<close>

theorem capture_counts:
  assumes "mobilenetModel s"
  shows "counts (run r s (capture_events cs)) =
           (fst (counts s) + length (filter (\<lambda>c. c = A) cs),
            snd (counts s) + length (filter (\<lambda>c. c = B) cs))"
  using assms
proof (induction cs arbitrary: s)
  case Nil
  show ?case by (simp add: run_def capture_events_def)
next
  case (Cons c cs)
  let ?t = "step r s (Click (capture_button c))"
  have t: "mobilenetModel ?t"
    and ct: "counts ?t = (fst (counts s) + (if c = A then 1 else 0),
                          snd (counts s) + (if c = B then 1 else 0))"
    using capture_step [OF Cons.prems, of r c] by simp_all
  have "run r s (capture_events (c # cs)) = run r ?t (capture_events cs)"
    by (simp add: run_def capture_events_def)
  then show ?case using Cons.IH [OF t] ct by simp
qed

theorem capture_counts_witness:
  "mobilenetModel loaded
   \<and> counts (run demo_rt loaded (capture_events [A, B, B, A, B])) = (2, 3)"
proof -
  have h: "mobilenetModel loaded" by (rule loaded_fields)
  show ?thesis
    using h loaded_fields(2) capture_counts [OF h, of demo_rt "[A, B, B, A, B]"] by simp
qed

text \<open>
  The claim as written fails before the extractor is loaded: a click on the class-A button
  in the initial state adds the thumbnail to the gallery, and the bucket stays empty.
\<close>

theorem capture_before_load_counterexample:
  "counts (run demo_rt (init False True True) (capture_events [A])) \<noteq>
     (fst (counts (init False True True)) + length (filter (\<lambda>c. c = A) [A]),
      snd (counts (init False True True)) + length (filter (\<lambda>c. c = B) [A]))
   \<and> counts (run demo_rt (init False True True) (capture_events [A])) = (0, 0)
   \<and> length (galleryA (run demo_rt (init False True True) (capture_events [A]))) = 1"
  by (simp add: eval_defs counts_def)

lemma handler_embeddings:
  "prefix (embeddingsA s) (embeddingsA (handler r b s)) \<and>
   prefix (embeddingsB s) (embeddingsB (handler r b s))"
  by (cases b) (simp_all add: handler_def handler_defs ui_defs Let_def split: option.split)

lemma step_embeddings:
  "prefix (embeddingsA s) (embeddingsA (step r s e)) \<and>
   prefix (embeddingsB s) (embeddingsB (step r s e))"
proof (cases e)
  case (Click b)
  then show ?thesis using handler_embeddings [of s r b] by (simp add: step_def)
qed (simp_all add: step_def async_defs ui_defs Let_def split: option.split prod.split)

text \<open>
  Claim C8. Under every event of the program, and so under every sequence of events, each
  of the two sample buckets only grows at its end: the bucket before is a prefix of the
  bucket after. No sample is removed, replaced or reordered, and no event empties a bucket.
\<close>

theorem buckets_grow:
  "prefix (embeddingsA s) (embeddingsA (run r s es)) \<and>
   prefix (embeddingsB s) (embeddingsB (run r s es))"
proof (induction es arbitrary: s)
  case Nil
  show ?case by (simp add: run_def)
next
  case (Cons e es)
  have "prefix (embeddingsA s) (embeddingsA (step r s e))"
    and "prefix (embeddingsB s) (embeddingsB (step r s e))"
    using step_embeddings [of s r e] by simp_all
  moreover have "prefix (embeddingsA (step r s e)) (embeddingsA (run r (step r s e) es))"
    and "prefix (embeddingsB (step r s e)) (embeddingsB (run r (step r s e) es))"
    using Cons.IH [of "step r s e"] by simp_all
  ultimately show ?case
    by (auto simp: run_def intro: prefix_order.trans)
qed

section \<open>Training\<close>

lemma train_click_fitting:
  assumes "10 \<le> length (embeddingsA s) + length (embeddingsB s)"
  shows "train_click r s = fitting r s []"
  using assms
  by (simp add: train_click_def fitting_def new_model_def new_job_def
      epochTexts_def setStatus_def Let_def)

lemma epochTexts_snoc:
  "epochTexts r (ds @ [(w, lg)]) = epochTexts r ds @ [epochStatus r (length ds) lg]"
  by (simp add: epochTexts_def)

lemma fit_epoch_fitting:
  assumes "length ds < 25"
  shows "fit_epoch r (length (jobs s)) w lg (fitting r s ds) = fitting r s (ds @ [(w, lg)])"
  using assms
  by (simp add: fit_epoch_def fitting_def new_job_def onEpochEnd_def setStatus_def
      epochTexts_snoc Let_def)

lemma fit_epoch_finished:
  assumes "25 \<le> length ds"
  shows "fit_epoch r (length (jobs s)) w lg (fitting r s ds) = fitting r s ds"
  using assms by (simp add: fit_epoch_def fitting_def new_job_def)

lemma run_fit_events:
  assumes "length ds \<le> 25"
  shows "run r (fitting r s ds) (fit_events (length (jobs s)) rs) =
         fitting r s (take 25 (ds @ rs))"
  using assms
proof (induction rs arbitrary: ds)
  case Nil
  then show ?case by (simp add: run_def fit_events_def)
next
  case (Cons x rs)
  obtain w lg where x: "x = (w, lg)" by (cases x)
  show ?case
  proof (cases "length ds < 25")
    case True
    have "run r (fitting r s ds) (fit_events (length (jobs s)) (x # rs)) =
          run r (fitting r s (ds @ [x])) (fit_events (length (jobs s)) rs)"
      using True by (simp add: run_def fit_events_def step_def x fit_epoch_fitting)
    also have "\<dots> = fitting r s (take 25 ((ds @ [x]) @ rs))"
      using True by (intro Cons.IH) simp
    finally show ?thesis by simp
  next
    case False
    with Cons.prems have l: "length ds = 25" by simp
    have "run r (fitting r s ds) (fit_events (length (jobs s)) (x # rs)) =
          run r (fitting r s ds) (fit_events (length (jobs s)) rs)"
      using l by (simp add: run_def fit_events_def step_def x fit_epoch_finished)
    also have "\<dots> = fitting r s (take 25 (ds @ rs))"
      using l by (intro Cons.IH) simp
    finally show ?thesis using l by simp
  qed
qed

lemma fit_resolve_fitting:
  "fit_resolve (length (jobs s)) (fitting r s ds) =
     (if length ds = 25 then fitted r s ds else fitting r s ds)"
  by (simp add: fit_resolve_def fitting_def fitted_def new_job_def train_resume_def
      setStatus_def dropAt_def Let_def)

lemma training_run_eq:
  assumes "10 \<le> length (embeddingsA s) + length (embeddingsB s)"
  shows "training_run r s rs =
           (if 25 \<le> length rs then fitted r s (take 25 rs) else fitting r s rs)"
proof -
  have "run r (train_click r s) (fit_events (length (jobs s)) rs) =
        fitting r s (take 25 rs)"
    using run_fit_events [of "[]" r s rs] by (simp add: train_click_fitting [OF assms])
  then have "training_run r s rs =
             fit_resolve (length (jobs s)) (fitting r s (take 25 rs))"
    by (simp add: training_run_def run_append) (simp add: run_def step_def)
  then show ?thesis
    by (simp add: fit_resolve_fitting min_def)
qed

lemma run_train_events:
  assumes "\<not> trainBtn_disabled s"
    and "10 \<le> length (embeddingsA s) + length (embeddingsB s)"
    and "length rs = 25"
  shows "run r s (train_events (length (jobs s)) rs) = fitted r s rs"
proof -
  have "run r s (train_events (length (jobs s)) rs) = training_run r s rs"
    using assms(1)
    by (simp add: train_events_def training_run_def run_def step_def disabled_def handler_def)
  then show ?thesis using assms(3) by (simp add: training_run_eq [OF assms(2)])
qed

lemma epochTexts_take:
  "epochTexts r (take 25 rs) =
     map (\<lambda>k. epochStatus r k (snd (rs ! k))) [0..<min 25 (length rs)]"
proof (rule nth_equalityI)
  show "length (epochTexts r (take 25 rs)) =
        length (map (\<lambda>k. epochStatus r k (snd (rs ! k))) [0..<min 25 (length rs)])"
    by (simp add: epochTexts_def min_def)
next
  fix i
  assume "i < length (epochTexts r (take 25 rs))"
  then have i: "i < 25" "i < length rs"
    by (simp_all add: epochTexts_def)
  then show "epochTexts r (take 25 rs) ! i =
             map (\<lambda>k. epochStatus r k (snd (rs ! k))) [0..<min 25 (length rs)] ! i"
    by (simp add: epochTexts_def split_beta)
qed

lemma oneHot_labels:
  "oneHot (replicate m 0 @ replicate n (Suc 0)) 2 =
     replicate m [1, 0] @ replicate n [0, 1]"
proof -
  have "[0..<2] = [0, Suc 0]" by (simp add: upt_rec)
  then show ?thesis by (simp add: oneHot_def)
qed

lemma layers_buildModel:
  "layers (buildModel r d k) = [Dense 128 Relu (Some d), Dropout 0.25, Dense 2 Softmax None]"
  by (simp add: buildModel_def sequential_def add_layer_def compile_def)

lemma ten_samples_enough:
  "10 \<le> length (embeddingsA ten_samples) + length (embeddingsB ten_samples)"
  by (simp add: ten_samples_fields)

text \<open>
  Claim C5. When the train handler passes the sample check, the model object it builds
  and stores in \<open>classifierModel\<close> has exactly three layers: a dense layer of 128 units
  with rectified-linear activation on the input, a dropout layer of rate 0.25, and a dense
  layer of 2 units with softmax activation. The fit is given the samples of class A
  followed by those of class B, with the label rows \<open>[1, 0]\<close> for class A and \<open>[0, 1]\<close>
  for class B. After the 25 epochs and the resolved promise the classifier is that same
  object with the same layers.
\<close>

theorem train_builds_classifier:
  assumes "10 \<le> length (embeddingsA s) + length (embeddingsB s)" and "length rs = 25"
  shows "classifierModel (train_click r s) = Some (length (models s))
       \<and> layers (models (train_click r s) ! length (models s)) =
           [Dense 128 Relu (Some (shape1 (stack (embeddingsA s @ embeddingsB s)))),
            Dropout 0.25, Dense 2 Softmax None]
       \<and> jobXs (last (jobs (train_click r s))) = embeddingsA s @ embeddingsB s
       \<and> jobYs (last (jobs (train_click r s))) =
           replicate (length (embeddingsA s)) [1, 0] @
           replicate (length (embeddingsB s)) [0, 1]
       \<and> classifierModel (training_run r s rs) = Some (length (models s))
       \<and> layers (models (training_run r s rs) ! length (models s)) =
           [Dense 128 Relu (Some (shape1 (stack (embeddingsA s @ embeddingsB s)))),
            Dropout 0.25, Dense 2 Softmax None]"
proof -
  have rs: "rs \<noteq> []" using assms(2) by auto
  show ?thesis
    using assms(2) rs
    by (simp add: train_click_fitting [OF assms(1)] training_run_eq [OF assms(1)]
        fitting_def fitted_def new_job_def new_model_def layers_buildModel oneHot_labels
        stack_def)
qed

theorem train_builds_classifier_witness:
  "10 \<le> length (embeddingsA ten_samples) + length (embeddingsB ten_samples)
   \<and> length demo_results = 25
   \<and> classifierModel (training_run demo_rt ten_samples demo_results) = Some 0
   \<and> layers (models (training_run demo_rt ten_samples demo_results) ! 0) =
       [Dense 128 Relu (Some 3), Dropout 0.25, Dense 2 Softmax None]
   \<and> jobYs (last (jobs (train_click demo_rt ten_samples))) =
       [[1, 0], [1, 0], [1, 0], [1, 0], [1, 0], [0, 1], [0, 1], [0, 1], [0, 1], [0, 1]]"
  using train_builds_classifier [OF ten_samples_enough length_demo_results, of demo_rt]
  by (simp add: ten_samples_fields length_demo_results shape1_def stack_def
      eval_nat_numeral)

lemma digit_value: "k < 10 \<Longrightarrow> digitVal (''0123456789'' ! k) = k"
proof -
  assume "k < 10"
  then have "k = 0 \<or> k = 1 \<or> k = 2 \<or> k = 3 \<or> k = 4 \<or> k = 5 \<or> k = 6 \<or> k = 7 \<or> k = 8 \<or> k = 9"
    by arith
  then show ?thesis by (auto simp: digitVal_def)
qed

lemma readNat_snoc: "readNat (cs @ [c]) = 10 * readNat cs + digitVal c"
  by (simp add: readNat_def)

text \<open>The decimal text of a number determines the number.\<close>

lemma readNat_showNat: "readNat (showNat n) = n"
proof (induction n rule: showNat.induct)
  case (1 n)
  show ?case
  proof (cases "n < 10")
    case True
    then show ?thesis
      using digit_value [of n] by (subst showNat.simps) (simp add: readNat_def)
  next
    case False
    then have "readNat (showNat (n div 10)) = n div 10" using 1 by simp
    then show ?thesis
      using False digit_value [of "n mod 10"]
      by (subst showNat.simps) (simp add: readNat_snoc)
  qed
qed

lemma length_graded_results: "length graded_results = 25"
  by (simp add: graded_results_def)

lemma graded_first: "graded_results ! 0 = ([0], \<lparr>loss = 24, acc = 0\<rparr>)"
  by (simp add: graded_results_def)

lemma graded_last: "graded_results ! 24 = ([24], \<lparr>loss = 0, acc = 1\<rparr>)"
  by (simp add: graded_results_def)

lemma showNat_values:
  "showNat 1 = ''1''" "showNat 25 = ''25''" "showNat 24 = ''24''" "showNat 0 = ''0''"
  "showNat (Suc 0) = ''1''"
  by (simp_all add: showNat.simps)

lemma replicate_3: "replicate 3 c = [c, c, c]"
  by (simp add: numeral_3_eq_3)

lemma epoch_text_first:
  "''Epoch '' @ showNat (0 + 1) @ '' '' @ [CHR 0xE2, CHR 0x80, CHR 0x94] @
     '' Loss: '' @ toFixed text_rt (loss (snd (graded_results ! 0))) 3 @
     '' Acc: '' @ toFixed text_rt (acc (snd (graded_results ! 0))) 3 =
   ''Epoch 1 '' @ [CHR 0xE2, CHR 0x80, CHR 0x94] @ '' Loss: 24.000 Acc: 0.000''"
  by (simp add: graded_first showNat_values replicate_3 text_rt_def demo_rt_def)

lemma epoch_text_last:
  "''Epoch '' @ showNat (24 + 1) @ '' '' @ [CHR 0xE2, CHR 0x80, CHR 0x94] @
     '' Loss: '' @ toFixed text_rt (loss (snd (graded_results ! 24))) 3 @
     '' Acc: '' @ toFixed text_rt (acc (snd (graded_results ! 24))) 3 =
   ''Epoch 25 '' @ [CHR 0xE2, CHR 0x80, CHR 0x94] @ '' Loss: 0.000 Acc: 1.000''"
  by (simp add: graded_last showNat_values replicate_3 text_rt_def demo_rt_def)

lemma nth_epoch_text:
  "k < 25 \<Longrightarrow> (xs @ [p, t] @ map f [0..<25] @ [d]) ! (length xs + 2 + k) = f k"
  by (simp add: nth_append)

text \<open>
  Claim C6. When the train handler passes the sample check, it asks for 25 epochs with
  shuffling. Let the library deliver any number of epoch results to that fit and then try
  to resolve it. The status texts written are the two of the preparation, then one epoch
  text for each of the epochs \<open>0, 1, ...\<close> in this order and for at most 25 epochs, and
  then the closing text exactly when 25 results were delivered. The text of epoch \<open>k\<close> is
  \<open>Epoch\<close>, the decimal numeral of \<open>k + 1\<close>, a dash, \<open>Loss:\<close> with the loss of that
  epoch's logs to three digits and \<open>Acc:\<close> with its accuracy to three digits. With fewer
  than 25 results the promise does not resolve and the train button stays disabled;
  results beyond the 25th have no effect.
\<close>

theorem training_epochs:
  assumes "10 \<le> length (embeddingsA s) + length (embeddingsB s)"
  shows "jobEpochs (last (jobs (train_click r s))) = 25
       \<and> jobShuffle (last (jobs (train_click r s)))
       \<and> statusLog (training_run r s rs) =
           statusLog s @ [''Preparing training data...'', ''Training...''] @
           map (\<lambda>k. ''Epoch '' @ showNat (k + 1) @ '' '' @ [CHR 0xE2, CHR 0x80, CHR 0x94] @
                     '' Loss: '' @ toFixed r (loss (snd (rs ! k))) 3 @
                     '' Acc: '' @ toFixed r (acc (snd (rs ! k))) 3)
               [0..<min 25 (length rs)] @
           (if 25 \<le> length rs then [''Training Done! Start Prediction.''] else [])
       \<and> (trainBtn_disabled (training_run r s rs) \<longleftrightarrow> length rs < 25)"
proof -
  have a: "jobEpochs (last (jobs (train_click r s))) = 25"
    and b: "jobShuffle (last (jobs (train_click r s)))"
    by (simp_all add: train_click_fitting [OF assms] fitting_def new_job_def)
  have t: "epochTexts r (take 25 rs) =
           map (\<lambda>k. ''Epoch '' @ showNat (k + 1) @ '' '' @ [CHR 0xE2, CHR 0x80, CHR 0x94] @
                     '' Loss: '' @ toFixed r (loss (snd (rs ! k))) 3 @
                     '' Acc: '' @ toFixed r (acc (snd (rs ! k))) 3)
               [0..<min 25 (length rs)]"
    by (simp add: epochTexts_take epochStatus_def emDash_def)
  have c: "statusLog (training_run r s rs) =
           statusLog s @ [''Preparing training data...'', ''Training...''] @
           epochTexts r (take 25 rs) @
           (if 25 \<le> length rs then [''Training Done! Start Prediction.''] else [])"
  proof (cases "25 \<le> length rs")
    case True
    then show ?thesis
      by (simp add: training_run_eq [OF assms] fitted_def)
  next
    case False
    then have "take 25 rs = rs" by simp
    then show ?thesis
      using False by (simp add: training_run_eq [OF assms] fitting_def)
  qed
  have d: "trainBtn_disabled (training_run r s rs) \<longleftrightarrow> length rs < 25"
    by (auto simp: training_run_eq [OF assms] fitted_def fitting_def)
  show ?thesis using a b c d unfolding t by blast
qed

theorem training_epochs_witness:
  "10 \<le> length (embeddingsA ten_samples) + length (embeddingsB ten_samples)
   \<and> statusLog (training_run text_rt ten_samples graded_results) =
       statusLog ten_samples @ [''Preparing training data...'', ''Training...''] @
       map (\<lambda>k. ''Epoch '' @ showNat (k + 1) @ '' '' @ [CHR 0xE2, CHR 0x80, CHR 0x94] @
                 '' Loss: '' @ toFixed text_rt (loss (snd (graded_results ! k))) 3 @
                 '' Acc: '' @ toFixed text_rt (acc (snd (graded_results ! k))) 3)
           [0..<25] @
       [''Training Done! Start Prediction.'']
   \<and> statusLog (training_run text_rt ten_samples graded_results) !
       (length (statusLog ten_samples) + 2 + 0) =
       ''Epoch 1 '' @ [CHR 0xE2, CHR 0x80, CHR 0x94] @ '' Loss: 24.000 Acc: 0.000''
   \<and> statusLog (training_run text_rt ten_samples graded_results) !
       (length (statusLog ten_samples) + 2 + 24) =
       ''Epoch 25 '' @ [CHR 0xE2, CHR 0x80, CHR 0x94] @ '' Loss: 0.000 Acc: 1.000''
   \<and> \<not> trainBtn_disabled (training_run text_rt ten_samples graded_results)
   \<and> trainBtn_disabled (training_run text_rt ten_samples (take 24 graded_results))"
proof -
  have e: "statusLog (training_run text_rt ten_samples graded_results) =
       statusLog ten_samples @ [''Preparing training data...'', ''Training...''] @
       map (\<lambda>k. ''Epoch '' @ showNat (k + 1) @ '' '' @ [CHR 0xE2, CHR 0x80, CHR 0x94] @
                 '' Loss: '' @ toFixed text_rt (loss (snd (graded_results ! k))) 3 @
                 '' Acc: '' @ toFixed text_rt (acc (snd (graded_results ! k))) 3)
           [0..<25] @
       [''Training Done! Start Prediction.'']"
    and b: "\<not> trainBtn_disabled (training_run text_rt ten_samples graded_results)"
    using training_epochs [OF ten_samples_enough, of text_rt graded_results]
    by (simp_all add: length_graded_results)
  have c: "trainBtn_disabled (training_run text_rt ten_samples (take 24 graded_results))"
    using training_epochs [OF ten_samples_enough, of text_rt "take 24 graded_results"]
    by (simp add: length_graded_results)
  let ?f = "\<lambda>k. ''Epoch '' @ showNat (k + 1) @ '' '' @ [CHR 0xE2, CHR 0x80, CHR 0x94] @
                 '' Loss: '' @ toFixed text_rt (loss (snd (graded_results ! k))) 3 @
                 '' Acc: '' @ toFixed text_rt (acc (snd (graded_results ! k))) 3"
  have "statusLog (training_run text_rt ten_samples graded_results) !
       (length (statusLog ten_samples) + 2 + 0) = ?f 0"
    unfolding e by (rule nth_epoch_text) simp
  then have n0: "statusLog (training_run text_rt ten_samples graded_results) !
       (length (statusLog ten_samples) + 2 + 0) =
       ''Epoch 1 '' @ [CHR 0xE2, CHR 0x80, CHR 0x94] @ '' Loss: 24.000 Acc: 0.000''"
    by (simp only: epoch_text_first)
  have "statusLog (training_run text_rt ten_samples graded_results) !
       (length (statusLog ten_samples) + 2 + 24) = ?f 24"
    unfolding e by (rule nth_epoch_text) simp
  then have n24: "statusLog (training_run text_rt ten_samples graded_results) !
       (length (statusLog ten_samples) + 2 + 24) =
       ''Epoch 25 '' @ [CHR 0xE2, CHR 0x80, CHR 0x94] @ '' Loss: 0.000 Acc: 1.000''"
    by (simp only: epoch_text_last)
  show ?thesis
    using ten_samples_enough e b c n0 n24 by blast
qed








lemma trained_once_eq: "trained_once = fitted demo_rt ten_samples demo_results"
  using run_train_events [where s = ten_samples and r = demo_rt and rs = demo_results]
  by (simp add: trained_once_def ten_samples_fields length_demo_results)

lemma trained_once_fields:
  "length (embeddingsA trained_once) + length (embeddingsB trained_once) = 10"
  "classifierModel trained_once = Some 0" "length (models trained_once) = 1"
  "jobs trained_once = []" "timers trained_once = []" "timerSeq trained_once = 0"
  "mobilenetModel trained_once" "cyclesBegun trained_once = 0"
  "inflight trained_once = []" "\<not> startPredictBtn_disabled trained_once"
  by (simp_all add: trained_once_eq fitted_def ten_samples_fields)



section \<open>Live prediction\<close>

lemma handler_timers:
  assumes "b \<noteq> StartPredictBtn" and "b \<noteq> StopPredictBtn"
  shows "timers (handler r b s) = timers s
       \<and> predictInterval (handler r b s) = predictInterval s
       \<and> cyclesBegun (handler r b s) = cyclesBegun s"
  using assms
  by (cases b) (simp_all add: handler_def handler_defs ui_defs Let_def split: option.split)

lemma async_timers:
  assumes "\<And>b. e \<noteq> Click b" and "\<And>h. e \<noteq> TimerFire h"
  shows "timers (step r s e) = timers s
       \<and> predictInterval (step r s e) = predictInterval s
       \<and> cyclesBegun (step r s e) = cyclesBegun s"
proof (cases e)
  case (Click b)
  then show ?thesis using assms(1) by blast
next
  case (TimerFire h)
  then show ?thesis using assms(2) by blast
qed (simp_all add: step_def async_defs ui_defs Let_def split: option.split prod.split)

lemma timer_fire_timers:
  "timers (timer_fire r h s) = timers s
   \<and> predictInterval (timer_fire r h s) = predictInterval s"
  by (simp add: timer_fire_def predict_cycle_def ui_defs Let_def split: option.split)

lemma timer_fire_idle:
  "timers s = [] \<Longrightarrow> timer_fire r h s = s"
  by (simp add: timer_fire_def)

lemma stop_timers:
  assumes "timers_tracked s"
  shows "timers (stopPredict_click s) = []"
proof (cases "truthy (predictInterval s)")
  case True
  then obtain h where h: "predictInterval s = Some h"
    by (auto simp: truthy_def split: option.splits)
  have "filter (\<lambda>t. fst t \<noteq> h) (timers s) = []"
    using assms h by (auto simp: timers_tracked_def filter_empty_conv)
  then show ?thesis
    using True h by (simp add: stopPredict_click_def ui_defs Let_def)
next
  case False
  have "timers s = []"
  proof (rule ccontr)
    assume "timers s \<noteq> []"
    then obtain t where "t \<in> set (timers s)" by (cases "timers s") auto
    then have "fst t \<noteq> 0 \<and> predictInterval s = Some (fst t)"
      using assms by (simp add: timers_tracked_def)
    then show False using False by (simp add: truthy_def)
  qed
  then show ?thesis
    using False by (simp add: stopPredict_click_def ui_defs Let_def)
qed

lemma stop_fields:
  "predictInterval (stopPredict_click s) = None
   \<and> predictor (stopPredict_click s) = Idle
   \<and> inflight (stopPredict_click s) = inflight s
   \<and> cyclesBegun (stopPredict_click s) = cyclesBegun s"
  by (simp add: stopPredict_click_def ui_defs predictor_def truthy_def Let_def)

lemma start_fields:
  "timers (startPredict_click s) = timers s @ [(Suc (timerSeq s), 300)]
   \<and> predictInterval (startPredict_click s) = Some (Suc (timerSeq s))
   \<and> predictor (startPredict_click s) = Running"
  by (simp add: startPredict_click_def ui_defs predictor_def truthy_def Let_def)

lemma start_tracked:
  "timers s = [] \<Longrightarrow> timers_tracked (startPredict_click s)"
  by (simp add: start_fields timers_tracked_def)

lemma step_tracked:
  assumes "e \<noteq> Click StartPredictBtn" and "timers_tracked s"
  shows "timers_tracked (step r s e)"
proof (cases e)
  case (Click b)
  show ?thesis
  proof (cases "b = StopPredictBtn")
    case True
    have "timers_tracked (stopPredict_click s)"
      using stop_timers [OF assms(2)] by (simp add: timers_tracked_def)
    then show ?thesis
      using Click True assms(2) by (simp add: step_def handler_def)
  next
    case False
    then have "b \<noteq> StartPredictBtn" "b \<noteq> StopPredictBtn"
      using Click assms(1) by simp_all
    then show ?thesis
      using Click assms(2) handler_timers [of b r s]
      by (simp add: step_def timers_tracked_def)
  qed
next
  case (TimerFire h)
  then show ?thesis
    using assms(2) timer_fire_timers [of r h s] by (simp add: step_def timers_tracked_def)
qed (use assms(2) async_timers [of e r s] in \<open>simp_all add: timers_tracked_def\<close>)

lemma run_tracked:
  "Click StartPredictBtn \<notin> set es \<Longrightarrow> timers_tracked s \<Longrightarrow> timers_tracked (run r s es)"
proof (induction es arbitrary: s)
  case Nil
  then show ?case by (simp add: run_def)
next
  case (Cons e es)
  have "timers_tracked (step r s e)"
    using Cons.prems by (intro step_tracked) auto
  then have "timers_tracked (run r (step r s e) es)"
    using Cons.prems by (intro Cons.IH) auto
  then show ?case by (simp add: run_def)
qed

lemma step_idle:
  assumes "e \<noteq> Click StartPredictBtn" and "timers s = []"
  shows "timers (step r s e) = [] \<and> cyclesBegun (step r s e) = cyclesBegun s"
proof (cases e)
  case (Click b)
  show ?thesis
  proof (cases "b = StopPredictBtn")
    case True
    have "timers_tracked s" using assms(2) by (simp add: timers_tracked_def)
    then show ?thesis
      using Click True assms(2) stop_timers [of s] stop_fields [of s]
      by (simp add: step_def handler_def)
  next
    case False
    then have "b \<noteq> StartPredictBtn" "b \<noteq> StopPredictBtn"
      using Click assms(1) by simp_all
    then show ?thesis
      using Click assms(2) handler_timers [of b r s] by (simp add: step_def)
  qed
next
  case (TimerFire h)
  then show ?thesis using assms(2) by (simp add: step_def timer_fire_idle)
qed (use assms(2) async_timers [of e r s] in simp_all)

lemma run_idle:
  "Click StartPredictBtn \<notin> set es \<Longrightarrow> timers s = [] \<Longrightarrow>
   timers (run r s es) = [] \<and> cyclesBegun (run r s es) = cyclesBegun s"
proof (induction es arbitrary: s)
  case Nil
  then show ?case by (simp add: run_def)
next
  case (Cons e es)
  have a: "timers (step r s e) = []" and b: "cyclesBegun (step r s e) = cyclesBegun s"
    using Cons.prems step_idle [of e s r] by auto
  have "timers (run r (step r s e) es) = [] \<and>
        cyclesBegun (run r (step r s e) es) = cyclesBegun (step r s e)"
    using Cons.prems a by (intro Cons.IH) auto
  then show ?case using b by (simp add: run_def)
qed

text \<open>
  Claim C7. Start the live prediction once, in a state without an active timer; let any
  events follow other than further clicks on the start button; then run the stop handler.
  The start handler makes the predictor Running with one active timer of 300 ms. The stop
  handler makes it Idle and leaves no active timer, and it does not touch the cycles
  suspended at their await, which resume when their data arrives. From then on, under any
  events other than a click on the start button, no timer becomes active and no prediction
  cycle begins: the count of begun cycles stays what it was at the stop. Time is not part
  of the model; no cycle begins after the stop at any delay, so none after 300 ms.
\<close>

theorem stop_after_start:
  assumes "timers s = []"
    and "Click StartPredictBtn \<notin> set es"
    and "Click StartPredictBtn \<notin> set es'"
  shows "predictor (startPredict_click s) = Running
       \<and> timers (startPredict_click s) = [(Suc (timerSeq s), 300)]
       \<and> predictor (stopPredict_click (run r (startPredict_click s) es)) = Idle
       \<and> timers (stopPredict_click (run r (startPredict_click s) es)) = []
       \<and> inflight (stopPredict_click (run r (startPredict_click s) es)) =
           inflight (run r (startPredict_click s) es)
       \<and> timers (run r (stopPredict_click (run r (startPredict_click s) es)) es') = []
       \<and> cyclesBegun (run r (stopPredict_click (run r (startPredict_click s) es)) es') =
           cyclesBegun (run r (startPredict_click s) es)"
proof -
  let ?s2 = "run r (startPredict_click s) es"
  have "timers_tracked ?s2"
    using assms(1,2) by (intro run_tracked start_tracked)
  then have t: "timers (stopPredict_click ?s2) = []"
    by (rule stop_timers)
  have "timers (run r (stopPredict_click ?s2) es') = [] \<and>
        cyclesBegun (run r (stopPredict_click ?s2) es') = cyclesBegun (stopPredict_click ?s2)"
    using assms(3) t by (rule run_idle)
  then show ?thesis
    using t assms(1) start_fields [of s] stop_fields [of ?s2] by simp
qed

lemma two_cycles:
  "cyclesBegun (run demo_rt (startPredict_click trained_once)
     [TimerFire 1, TimerFire 1, DataReady 0]) = 2
   \<and> inflight (run demo_rt (startPredict_click trained_once)
     [TimerFire 1, TimerFire 1, DataReady 0]) = [(1/4, 3/4)]"
  by (simp add: run_def step_def timer_fire_def predict_cycle_def predict_resume_def
      startPredict_click_def ui_defs dropAt_def trained_once_fields demo_rt_def Let_def)

theorem stop_after_start_witness:
  "timers trained_once = []
   \<and> Click StartPredictBtn \<notin> set [TimerFire 1, TimerFire 1, DataReady 0]
   \<and> Click StartPredictBtn \<notin> set [TimerFire 1, DataReady 0, TimerFire 1]
   \<and> predictor (startPredict_click trained_once) = Running
   \<and> timers (stopPredict_click (run demo_rt (startPredict_click trained_once)
        [TimerFire 1, TimerFire 1, DataReady 0])) = []
   \<and> inflight (stopPredict_click (run demo_rt (startPredict_click trained_once)
        [TimerFire 1, TimerFire 1, DataReady 0])) = [(1/4, 3/4)]
   \<and> cyclesBegun (run demo_rt
        (stopPredict_click (run demo_rt (startPredict_click trained_once)
           [TimerFire 1, TimerFire 1, DataReady 0]))
        [TimerFire 1, DataReady 0, TimerFire 1]) = 2"
proof -
  have h1: "timers trained_once = []" by (rule trained_once_fields)
  have h2: "Click StartPredictBtn \<notin> set [TimerFire 1, TimerFire 1, DataReady 0]"
    by simp
  have h3: "Click StartPredictBtn \<notin> set [TimerFire 1, DataReady 0, TimerFire 1]"
    by simp
  show ?thesis
    using h1 h2 h3 two_cycles stop_after_start [OF h1 h2 h3, of demo_rt] by simp
qed

text \<open>
  Claim C10. When \<open>predictInterval\<close> is null the stop handler cancels no timer and leaves
  the timer reference and the predictor state as they are. Running the stop handler a
  second time changes nothing but the status text, which is written again with the same
  value; and a second click on the stop button does nothing at all, since the first has
  disabled the button.
\<close>

theorem stop_idempotent:
  "(predictInterval s = None \<longrightarrow>
      timers (stopPredict_click s) = timers s
      \<and> predictInterval (stopPredict_click s) = predictInterval s
      \<and> predictor (stopPredict_click s) = predictor s)
   \<and> stopPredict_click (stopPredict_click s) =
       (stopPredict_click s)\<lparr>statusLog := statusLog (stopPredict_click s) @ [''Stopped.'']\<rparr>
   \<and> step r (step r s (Click StopPredictBtn)) (Click StopPredictBtn) =
       step r s (Click StopPredictBtn)"
  by (simp add: stopPredict_click_def step_def handler_def disabled_def ui_defs truthy_def
      predictor_def Let_def)

theorem stop_idempotent_witness:
  "predictInterval loaded = None
   \<and> timers (stopPredict_click loaded) = timers loaded
   \<and> predictor (stopPredict_click loaded) = Idle
   \<and> step demo_rt (step demo_rt loaded (Click StopPredictBtn)) (Click StopPredictBtn) =
       step demo_rt loaded (Click StopPredictBtn)"
  using stop_idempotent [of loaded demo_rt]
  by (simp add: loaded_fields predictor_def truthy_def)

text \<open>
  What the start button does hold to. A click on it runs the handler only while the button
  is enabled, and the handler disables it, so a second click right after the first does
  nothing. On a page whose HTML disables the start and stop buttons, the start button is
  enabled only once a classifier exists, so a click without a classifier does nothing.
\<close>

lemma start_dispatch:
  "step r s (Click StartPredictBtn) =
     (if startPredictBtn_disabled s then s else startPredict_click s)"
  by (simp add: step_def disabled_def handler_def)

lemma start_twice:
  "step r (startPredict_click s) (Click StartPredictBtn) = startPredict_click s"
  by (simp add: step_def disabled_def startPredict_click_def ui_defs Let_def)

lemma init_guarded: "start_guarded (init trainOff True True)"
  by (simp add: start_guarded_def init_def)

lemma handler_guarded:
  assumes "start_guarded s" and "\<not> disabled s b"
  shows "start_guarded (handler r b s)"
  using assms
  by (cases b)
     (auto simp: start_guarded_def disabled_def handler_def handler_defs ui_defs Let_def
           split: option.splits)

lemma step_guarded:
  assumes "start_guarded s"
  shows "start_guarded (step r s e)"
proof (cases e)
  case (Click b)
  then show ?thesis
    using assms handler_guarded [of s b r] by (simp add: step_def)
next
  case (FitResolve j)
  then show ?thesis
    using assms
    by (auto simp: step_def start_guarded_def fit_resolve_def train_resume_def setStatus_def
        Let_def)
next
  case (FitReject j)
  then show ?thesis
    using assms by (auto simp: step_def start_guarded_def fit_reject_def)
next
  case (FitEpoch j w lg)
  then show ?thesis
    using assms
    by (auto simp: step_def start_guarded_def fit_epoch_def ui_defs Let_def)
qed (use assms in \<open>auto simp: step_def start_guarded_def async_defs ui_defs Let_def
      split: option.splits prod.splits\<close>)

lemma run_guarded:
  "start_guarded s \<Longrightarrow> start_guarded (run r s es)"
proof (induction es arbitrary: s)
  case Nil
  then show ?case by (simp add: run_def)
next
  case (Cons e es)
  then have "start_guarded (run r (step r s e) es)"
    by (intro Cons.IH step_guarded)
  then show ?case by (simp add: run_def)
qed

lemma start_without_classifier:
  assumes "classifierModel (run r (init trainOff True True) es) = None"
  shows "step r (run r (init trainOff True True) es) (Click StartPredictBtn) =
         run r (init trainOff True True) es"
proof -
  have "start_guarded (run r (init trainOff True True) es)"
    by (intro run_guarded init_guarded)
  then have "startPredictBtn_disabled (run r (init trainOff True True) es)"
    using assms by (simp add: start_guarded_def)
  then show ?thesis by (simp add: step_def disabled_def)
qed

lemma retrained_eq:
  "retrained =
     fitted demo_rt (startPredict_click (fitted demo_rt ten_samples demo_results))
       demo_results"
proof -
  let ?s1 = "fitted demo_rt ten_samples demo_results"
  let ?s2 = "startPredict_click ?s1"
  have r1: "run demo_rt ten_samples (train_events 0 demo_results) = ?s1"
    using run_train_events [where s = ten_samples and r = demo_rt and rs = demo_results]
    by (simp add: ten_samples_fields length_demo_results)
  have r2: "run demo_rt ?s1 [Click StartPredictBtn] = ?s2"
    by (simp add: run_def step_def disabled_def handler_def fitted_def)
  have e2: "10 \<le> length (embeddingsA ?s2) + length (embeddingsB ?s2)"
    "\<not> trainBtn_disabled ?s2" "jobs ?s2 = []"
    by (simp_all add: startPredict_click_def ui_defs fitted_def ten_samples_fields)
  have r3: "run demo_rt ?s2 (train_events 0 demo_results) =
            fitted demo_rt ?s2 demo_results"
    using run_train_events [where s = ?s2 and r = demo_rt and rs = demo_results] e2
    by (simp add: length_demo_results)
  have "retrained =
        run demo_rt
          (run demo_rt (run demo_rt ten_samples (train_events 0 demo_results))
             [Click StartPredictBtn])
          (train_events 0 demo_results)"
    by (simp only: retrained_def run_append)
  then show ?thesis
    by (simp only: r1 r2 r3)
qed

lemma retrained_fields:
  "timers retrained = [(1, 300)]" "timerSeq retrained = 1"
  "predictInterval retrained = Some 1"
  "\<not> startPredictBtn_disabled retrained" "\<not> stopPredictBtn_disabled retrained"
  "cyclesBegun retrained = 0" "mobilenetModel retrained"
  "classifierModel retrained = Some 1" "length (models retrained) = 2"
  by (simp_all add: retrained_eq fitted_def startPredict_click_def ui_defs
      ten_samples_fields)

text \<open>
  Claim C3, evaluated where the code departs from it. The session captures ten samples,
  trains, starts the live prediction and trains again while the prediction runs. The end
  of the second training enables the start button although the predictor is Running. A
  click on it is then not a no-op: a second timer is scheduled and \<open>predictInterval\<close> holds
  only the new handle. A click on stop cancels the second timer alone; the predictor is
  Idle by its timer reference, and the first timer still fires and begins a cycle.
\<close>

theorem second_start_while_running:
  "predictor retrained = Running
   \<and> timers retrained = [(1, 300)]
   \<and> classifierModel retrained \<noteq> None
   \<and> timers (step demo_rt retrained (Click StartPredictBtn)) = [(1, 300), (2, 300)]
   \<and> predictInterval (step demo_rt retrained (Click StartPredictBtn)) = Some 2
   \<and> timers (run demo_rt retrained [Click StartPredictBtn, Click StopPredictBtn]) =
       [(1, 300)]
   \<and> predictor (run demo_rt retrained [Click StartPredictBtn, Click StopPredictBtn]) = Idle
   \<and> cyclesBegun (run demo_rt retrained
        [Click StartPredictBtn, Click StopPredictBtn, TimerFire 1]) = 1"
  by (simp add: retrained_fields predictor_def truthy_def run_def step_def disabled_def
      handler_def startPredict_click_def stopPredict_click_def timer_fire_def
      predict_cycle_def ui_defs Let_def)

end
